theory Spec2Isabelle
  imports Complex_Main
begin

section \<open>Text\<close>

text \<open>
  Text is a list of 8-bit characters. The classes and case conversions of this section
  are those of ASCII: they change the 26 ASCII letters and leave every other character
  alone. They serve where the source works on ASCII classes (\<open>\d\<close>, \<open>[a-z0-9]\<close>) and as
  the case mappings of the example environment. Where the source calls
  \<open>toLowerCase\<close> and \<open>toUpperCase\<close> on text of the services, the mappings are those of
  the runtime, taken from the environment (see \<open>world\<close>).
\<close>

definition digit_chars :: string where
  "digit_chars = ''0123456789''"

definition upper_letters :: string where
  "upper_letters = ''ABCDEFGHIJKLMNOPQRSTUVWXYZ''"

definition lower_letters :: string where
  "lower_letters = ''abcdefghijklmnopqrstuvwxyz''"

definition is_digit :: "char \<Rightarrow> bool" where
  "is_digit c = (c \<in> set digit_chars)"

definition is_upper :: "char \<Rightarrow> bool" where
  "is_upper c = (c \<in> set upper_letters)"

definition is_lower :: "char \<Rightarrow> bool" where
  "is_lower c = (c \<in> set lower_letters)"

definition is_alpha :: "char \<Rightarrow> bool" where
  "is_alpha c = (is_upper c \<or> is_lower c)"

definition toLower_c :: "char \<Rightarrow> char" where
  "toLower_c c = (case map_of (zip upper_letters lower_letters) c of Some d \<Rightarrow> d | None \<Rightarrow> c)"

definition toUpper_c :: "char \<Rightarrow> char" where
  "toUpper_c c = (case map_of (zip lower_letters upper_letters) c of Some d \<Rightarrow> d | None \<Rightarrow> c)"

definition toLowerCase :: "string \<Rightarrow> string" where
  "toLowerCase s = map toLower_c s"

definition toUpperCase :: "string \<Rightarrow> string" where
  "toUpperCase s = map toUpper_c s"

text \<open>\<open>s.startsWith(p)\<close>.\<close>

definition startsWith :: "string \<Rightarrow> string \<Rightarrow> bool" where
  "startsWith p s = (take (length p) s = p)"

text \<open>\<open>s.split(sep)\<close> for a separator of one character, over any type of characters: the
  empty text gives one empty piece.\<close>

fun split_str :: "'c \<Rightarrow> 'c list \<Rightarrow> 'c list list" where
  "split_str sep [] = [[]]"
| "split_str sep (c # cs) =
     (if c = sep then [] # split_str sep cs
      else (case split_str sep cs of
              w # ws \<Rightarrow> (c # w) # ws
            | [] \<Rightarrow> [[c]]))"

text \<open>\<open>pieces.join(sep)\<close>.\<close>

fun join :: "'c list \<Rightarrow> 'c list list \<Rightarrow> 'c list" where
  "join sep [] = []"
| "join sep [w] = w"
| "join sep (w # v # ws) = w @ sep @ join sep (v # ws)"

text \<open>\<open>s.trim()\<close>, on the ASCII white space characters.\<close>

definition is_space :: "char \<Rightarrow> bool" where
  "is_space c = (c \<in> set [CHR 0x09, CHR 0x0A, CHR 0x0B, CHR 0x0C, CHR 0x0D, CHR '' ''])"

definition trim :: "string \<Rightarrow> string" where
  "trim s = rev (dropWhile is_space (rev (dropWhile is_space s)))"

text \<open>\<open>s.indexOf(c)\<close>: \<open>-1\<close> when the character does not occur.\<close>

definition indexOf :: "char \<Rightarrow> string \<Rightarrow> int" where
  "indexOf c s = (if c \<in> set s then int (length (takeWhile (\<lambda>d. d \<noteq> c) s)) else - 1)"

text \<open>\<open>s.substring(a, b)\<close>: both bounds are clamped to the text, and swapped when
  the first is the larger.\<close>

definition substring :: "int \<Rightarrow> int \<Rightarrow> string \<Rightarrow> string" where
  "substring a b s =
     (let n = int (length s);
          a' = max 0 (min a n);
          b' = max 0 (min b n)
      in take (nat (max a' b' - min a' b')) (drop (nat (min a' b')) s))"

text \<open>\<open>String(n)\<close> for a natural number, and \<open>padStart(2, '0')\<close>.\<close>

fun String_nat :: "nat \<Rightarrow> string" where
  "String_nat n =
     (if n < 10 then [digit_chars ! n]
      else String_nat (n div 10) @ [digit_chars ! (n mod 10)])"

declare String_nat.simps [simp del]

definition padStart2 :: "string \<Rightarrow> string" where
  "padStart2 s = replicate (2 - length s) (CHR ''0'') @ s"

text \<open>
  The data URI prefix that \<open>replace(/^data:image\/(png|jpeg|jpg|webp);base64,/, '')\<close>
  removes, the alternatives tried in the order of the pattern.
\<close>

definition strip_data_uri :: "string \<Rightarrow> string" where
  "strip_data_uri s =
     (case find (\<lambda>p. startsWith p s)
             (map (\<lambda>t. ''data:image/'' @ t @ '';base64,'') [''png'', ''jpeg'', ''jpg'', ''webp''])
      of Some p \<Rightarrow> drop (length p) s
       | None \<Rightarrow> s)"

section \<open>Numbers\<close>

text \<open>
  A JavaScript number is an IEEE 754 double: a rational that a double holds, an
  infinity or NaN. The model has one zero: the sign of a zero shows only in a division
  by it, and the source divides by 1000 only.
\<close>

datatype jsnum = Num rat | PosInf | NegInf | NaN

text \<open>The number of binary digits of a natural number.\<close>

fun bit_length :: "nat \<Rightarrow> nat" where
  "bit_length n = (if n = 0 then 0 else Suc (bit_length (n div 2)))"

declare bit_length.simps [simp del]

text \<open>For a positive rational \<open>a\<close>, the exponent \<open>e\<close> with \<open>2 ^ e \<le> a < 2 ^ (e + 1)\<close>.\<close>

definition floor_log2 :: "rat \<Rightarrow> int" where
  "floor_log2 a =
     (if 1 \<le> a then int (bit_length (nat \<lfloor>a\<rfloor>)) - 1
      else - int (bit_length (nat (\<lceil>1 / a\<rceil> - 1))))"

definition pow2 :: "int \<Rightarrow> rat" where
  "pow2 e = (if 0 \<le> e then 2 ^ nat e else 1 / 2 ^ nat (- e))"

definition round_half_even :: "rat \<Rightarrow> int" where
  "round_half_even q =
     (let f = \<lfloor>q\<rfloor>; d = q - of_int f
      in if d < 1 / 2 then f else if 1 / 2 < d then f + 1 else if even f then f else f + 1)"

text \<open>
  The double nearest to a rational, ties to the even significand: 53 significant bits,
  exponents from \<open>-1022\<close> (below that the spacing stays \<open>2 ^ -1074\<close>, so that small
  values round to subnormal numbers and to zero), and an infinity from \<open>2 ^ 1024\<close> on.
  Every arithmetic operation on doubles is the exact operation followed by this
  rounding.
\<close>

definition round_double :: "rat \<Rightarrow> jsnum" where
  "round_double q =
     (if q = 0 then Num 0
      else
        let a = \<bar>q\<bar>;
            e = max (floor_log2 a) (- 1022);
            ulp = pow2 (e - 52);
            r = of_int (round_half_even (a / ulp)) * ulp
        in if pow2 1024 \<le> r then (if 0 < q then PosInf else NegInf)
           else Num (if 0 < q then r else - r))"

text \<open>The sign of a number, and the infinity of a sign (NaN for the sign of zero).\<close>

definition js_sign :: "jsnum \<Rightarrow> int" where
  "js_sign a = (case a of Num x \<Rightarrow> (if 0 < x then 1 else if x < 0 then - 1 else 0)
                        | PosInf \<Rightarrow> 1 | NegInf \<Rightarrow> - 1 | NaN \<Rightarrow> 0)"

definition inf_signed :: "int \<Rightarrow> jsnum" where
  "inf_signed s = (if 0 < s then PosInf else if s < 0 then NegInf else NaN)"

text \<open>\<open>a - b\<close>, \<open>a * b\<close> and \<open>a / b\<close>.\<close>

definition js_sub :: "jsnum \<Rightarrow> jsnum \<Rightarrow> jsnum" where
  "js_sub a b =
     (case (a, b) of
        (Num x, Num y) \<Rightarrow> round_double (x - y)
      | (NaN, _) \<Rightarrow> NaN
      | (_, NaN) \<Rightarrow> NaN
      | (PosInf, PosInf) \<Rightarrow> NaN
      | (NegInf, NegInf) \<Rightarrow> NaN
      | (PosInf, _) \<Rightarrow> PosInf
      | (NegInf, _) \<Rightarrow> NegInf
      | (Num x, PosInf) \<Rightarrow> NegInf
      | (Num x, NegInf) \<Rightarrow> PosInf)"

definition js_mul :: "jsnum \<Rightarrow> jsnum \<Rightarrow> jsnum" where
  "js_mul a b =
     (case (a, b) of
        (Num x, Num y) \<Rightarrow> round_double (x * y)
      | (NaN, _) \<Rightarrow> NaN
      | (_, NaN) \<Rightarrow> NaN
      | _ \<Rightarrow> inf_signed (js_sign a * js_sign b))"

definition js_div :: "jsnum \<Rightarrow> jsnum \<Rightarrow> jsnum" where
  "js_div a b =
     (case (a, b) of
        (Num x, Num y) \<Rightarrow>
          if y = 0 then inf_signed (js_sign a) else round_double (x / y)
      | (NaN, _) \<Rightarrow> NaN
      | (_, NaN) \<Rightarrow> NaN
      | (Num x, _) \<Rightarrow> Num 0
      | (_, Num y) \<Rightarrow> inf_signed (js_sign a * (if y < 0 then - 1 else 1))
      | _ \<Rightarrow> NaN)"

text \<open>\<open>a <= b\<close>: false when either is NaN.\<close>

definition js_le :: "jsnum \<Rightarrow> jsnum \<Rightarrow> bool" where
  "js_le a b =
     (case (a, b) of
        (NaN, _) \<Rightarrow> False
      | (_, NaN) \<Rightarrow> False
      | (NegInf, _) \<Rightarrow> True
      | (_, PosInf) \<Rightarrow> True
      | (Num x, Num y) \<Rightarrow> x \<le> y
      | _ \<Rightarrow> False)"

text \<open>\<open>Math.max(a, b)\<close> and \<open>Math.min(a, b)\<close>: NaN when either is NaN.\<close>

definition Math_max :: "jsnum \<Rightarrow> jsnum \<Rightarrow> jsnum" where
  "Math_max a b = (if a = NaN \<or> b = NaN then NaN else if js_le a b then b else a)"

definition Math_min :: "jsnum \<Rightarrow> jsnum \<Rightarrow> jsnum" where
  "Math_min a b = (if a = NaN \<or> b = NaN then NaN else if js_le a b then a else b)"

section \<open>Types (types.ts)\<close>

record BookData =
  title :: string
  author :: string
  synopsis :: string
  price :: string
  category :: string

text \<open>Every field of an analysis result is optional.\<close>

record BookAnalysisResult =
  title_opt :: "string option"
  author_opt :: "string option"
  box_2d :: "jsnum list option"
  categories :: "string list option"
  category_opt :: "string option"
  price_opt :: "string option"
  synopsis_opt :: "string option"

record HistoryItem = BookData +
  id_h :: string
  image_h :: string
  timestamp :: nat

record File =
  name_f :: string
  content_f :: string

datatype Status = St_idle | St_processing | St_completed | St_error

record BulkImportItem =
  id_b :: string
  file_b :: File
  previewUrl :: string
  status_b :: Status
  data_b :: BookData
  processedImage :: "string option"
  error_b :: "string option"

datatype AppStatus = IDLE | ANALYZING_IMAGE | SEARCHING_SYNOPSIS | COMPLETED | ERROR

record ProcessingError =
  message :: string

datatype Tab = Tab_scanner | Tab_bulk | Tab_uploads | Tab_archived

text \<open>A thrown \<open>Error\<close> with its message; a promise settles to \<open>exn + 'a\<close>, \<open>Inl\<close> when
  it rejects.\<close>

datatype exn = Error string

section \<open>The environment\<close>

text \<open>
  What the program receives from outside, as functions of what it sends:
  \<^item> \<open>readAsDataURL\<close>: the data URL a \<open>FileReader\<close> delivers; \<open>None\<close> when \<open>onload\<close>
    never fires (the code installs no other handler, so the caller then waits forever);
  \<^item> \<open>generateContent_vision\<close>: the text of the vision model's response to an image
    (\<open>None\<close> when the response has no text), or the error the call throws;
  \<^item> \<open>JSON_parse\<close>: the parse of that text;
  \<^item> \<open>generateContent_search\<close>: the text of the response to the synopsis prompt built
    from a title and an author, or the error the call throws;
  \<^item> \<open>load_image\<close>: the natural width and height of a decoded image, \<open>None\<close> when
    \<open>onerror\<close> fires;
  \<^item> \<open>canvas_draw\<close>: drawing the rectangle \<open>(x, y, w, h)\<close> of an image on a canvas of
    that size and encoding it: the data URL, \<open>None\<close> when there is no 2d context, or the
    error thrown on the way;
  \<^item> \<open>generateAsync\<close>: packing the files of a zip archive;
  \<^item> \<open>String_toLowerCase\<close> and \<open>String_toUpperCase\<close>: the case mappings of the
    runtime (\<open>String.prototype.toLowerCase\<close> and \<open>toUpperCase\<close>). They follow the
    Unicode tables, which are no part of the source; a mapping may change the length of
    a text.
\<close>

record world =
  readAsDataURL :: "File \<Rightarrow> string option"
  generateContent_vision :: "string \<Rightarrow> exn + string option"
  JSON_parse :: "string \<Rightarrow> exn + BookAnalysisResult"
  generateContent_search :: "string \<Rightarrow> string \<Rightarrow> exn + string option"
  load_image :: "string \<Rightarrow> (nat \<times> nat) option"
  canvas_draw :: "string \<Rightarrow> jsnum \<times> jsnum \<times> jsnum \<times> jsnum \<Rightarrow> exn + string option"
  generateAsync :: "(string \<times> string) list \<Rightarrow> exn + string"
  String_toLowerCase :: "string \<Rightarrow> string"
  String_toUpperCase :: "string \<Rightarrow> string"

section \<open>Image cropper\<close>

text \<open>
  The rectangle \<open>(x, y, w, h)\<close> of \<open>cropImage\<close> for the box \<open>(ymin, xmin, ymax, xmax)\<close> on an
  image of the given natural width and height, in double arithmetic, operation by
  operation as the source has them.
\<close>

definition crop_rect :: "jsnum \<times> jsnum \<times> jsnum \<times> jsnum \<Rightarrow> nat \<Rightarrow> nat \<Rightarrow> jsnum \<times> jsnum \<times> jsnum \<times> jsnum" where
  "crop_rect box width' height' =
     (case box of (ymin, xmin, ymax, xmax) \<Rightarrow>
        let height = Num (of_nat height');
            width = Num (of_nat width');
            y0 = js_mul (js_div ymin (Num 1000)) height;
            x0 = js_mul (js_div xmin (Num 1000)) width;
            h0 = js_mul (js_div (js_sub ymax ymin) (Num 1000)) height;
            w0 = js_mul (js_div (js_sub xmax xmin) (Num 1000)) width;
            x = Math_max (Num 0) x0;
            y = Math_max (Num 0) y0;
            w = Math_min (js_sub width x) w0;
            h = Math_min (js_sub height y) h0
        in (x, y, w, h))"

text \<open>
  \<open>cropImage\<close>: the promise resolves with the original image when the image does not
  load, when \<open>w <= 0 || h <= 0\<close>, when there is no 2d context and when anything in the
  handler throws. Its only caller passes a box of exactly four numbers.
\<close>

definition cropImage :: "world \<Rightarrow> string \<Rightarrow> jsnum \<times> jsnum \<times> jsnum \<times> jsnum \<Rightarrow> exn + string" where
  "cropImage wd base64 box =
     (case load_image wd base64 of
        None \<Rightarrow> Inr base64
      | Some (width, height) \<Rightarrow>
          (case crop_rect box width height of (x, y, w, h) \<Rightarrow>
             if js_le w (Num 0) \<or> js_le h (Num 0) then Inr base64
             else (case canvas_draw wd base64 (x, y, w, h) of
                     Inr (Some url) \<Rightarrow> Inr url
                   | Inr None \<Rightarrow> Inr base64
                   | Inl e \<Rightarrow> Inr base64)))"

section \<open>Title caser and price extractor\<close>

text \<open>
  \<open>toTitleCase\<close>, over any type of characters (the code units of the text): \<open>lower\<close> and
  \<open>upper\<close> are the \<open>toLowerCase\<close> and \<open>toUpperCase\<close> of the runtime, \<open>sp\<close> is the space
  character. \<open>word.charAt(0)\<close> is \<open>take 1 word\<close>, \<open>word.slice(1)\<close> is \<open>drop 1 word\<close>.
\<close>

definition toTitleCase :: "('c list \<Rightarrow> 'c list) \<Rightarrow> ('c list \<Rightarrow> 'c list) \<Rightarrow> 'c \<Rightarrow> 'c list \<Rightarrow> 'c list" where
  "toTitleCase lower upper sp str =
     (if str = [] then []
      else join [sp]
             (map (\<lambda>word. upper (take 1 word) @ drop 1 word)
                (split_str sp (lower str))))"

text \<open>\<open>filename.match(/^(\d+)/)\<close>: the digits the name starts with.\<close>

definition extractPriceFromFilename :: "string \<Rightarrow> string" where
  "extractPriceFromFilename filename = takeWhile is_digit filename"

section \<open>Service adapters (geminiService)\<close>

definition identifyBookFromImage :: "world \<Rightarrow> string \<Rightarrow> exn + BookAnalysisResult" where
  "identifyBookFromImage wd base64Image =
     (case (case generateContent_vision wd (strip_data_uri base64Image) of
              Inl e \<Rightarrow> Inl e
            | Inr None \<Rightarrow> Inl (Error ''No data returned from Gemini Vision.'')
            | Inr (Some txt) \<Rightarrow>
                if txt = [] then Inl (Error ''No data returned from Gemini Vision.'')
                else JSON_parse wd txt)
      of Inl e \<Rightarrow> Inl (Error ''Failed to identify book from image.'')
       | Inr r \<Rightarrow> Inr r)"

definition findOrGenerateSynopsis :: "world \<Rightarrow> string \<Rightarrow> string \<Rightarrow> exn + string" where
  "findOrGenerateSynopsis wd title' author' =
     (case (case generateContent_search wd title' author' of
              Inl e \<Rightarrow> Inl e
            | Inr None \<Rightarrow> Inr ''Synopsis could not be generated.''
            | Inr (Some txt) \<Rightarrow>
                if txt = [] then Inr ''Synopsis could not be generated.''
                else Inr (trim txt))
      of Inl e \<Rightarrow> Inr ''Could not retrieve synopsis due to an error.''
       | Inr s \<Rightarrow> Inr s)"

section \<open>Cataloging pipeline\<close>

record PipelineResult =
  title_p :: string
  author_p :: string
  category_p :: string
  synopsis_p :: string
  processedImage_p :: string

text \<open>\<open>v || d\<close> for an optional text: the default when the text is absent or empty.\<close>

definition or_default :: "string option \<Rightarrow> string \<Rightarrow> string" where
  "or_default v d = (case v of None \<Rightarrow> d | Some s \<Rightarrow> if s = [] then d else s)"

text \<open>
  \<open>processImagePipeline\<close>, without the progress callback (it only sets a transient
  status that the caller overwrites when the promise settles).
\<close>

definition processImagePipeline :: "world \<Rightarrow> string \<Rightarrow> bool \<Rightarrow> exn + PipelineResult" where
  "processImagePipeline wd base64Image autoCrop' =
     (case identifyBookFromImage wd base64Image of
        Inl e \<Rightarrow> Inl e
      | Inr identity \<Rightarrow>
          let title' = toTitleCase (String_toLowerCase wd) (String_toUpperCase wd) (CHR '' '')
                         (or_default (title_opt identity) ''Unknown Title'');
              author' = toTitleCase (String_toLowerCase wd) (String_toUpperCase wd) (CHR '' '')
                          (or_default (author_opt identity) ''Unknown Author'');
              category' =
                (if categories identity \<noteq> None \<and> length (the (categories identity)) > 0
                 then join '', '' (the (categories identity))
                 else if category_opt identity \<noteq> None \<and> the (category_opt identity) \<noteq> []
                 then the (category_opt identity)
                 else []);
              cropped =
                (if autoCrop' \<and> box_2d identity \<noteq> None \<and> length (the (box_2d identity)) = 4
                 then (case the (box_2d identity) of
                         [ymin, xmin, ymax, xmax] \<Rightarrow> cropImage wd base64Image (ymin, xmin, ymax, xmax)
                       | _ \<Rightarrow> Inr base64Image)
                 else Inr base64Image)
          in (case cropped of
                Inl e \<Rightarrow> Inl e
              | Inr processedImage' \<Rightarrow>
                  (case findOrGenerateSynopsis wd title' author' of
                     Inl e \<Rightarrow> Inl e
                   | Inr synopsis' \<Rightarrow>
                       Inr \<lparr>title_p = title', author_p = author', category_p = category',
                            synopsis_p = synopsis', processedImage_p = processedImage'\<rparr>)))"

section \<open>Application state (App)\<close>

text \<open>
  The state hooks of \<open>App\<close>. A handler is a function from the state in which it is
  called to the state after its last update; updates of other handlers are not
  interleaved with an asynchronous handler's.
\<close>

record app_state =
  image_s :: "string option"
  status_s :: AppStatus
  bookData :: "BookData option"
  error_s :: "ProcessingError option"
  autoCrop :: bool
  history :: "HistoryItem list"
  archived :: "HistoryItem list"
  bulkItems :: "BulkImportItem list"
  isBulkProcessing :: bool
  activeTab :: Tab

subsection \<open>Scanner\<close>

text \<open>\<open>None\<close>: the handler never finishes, because the file reader never delivers.\<close>

definition handleScannerFileSelected :: "world \<Rightarrow> File list \<Rightarrow> app_state \<Rightarrow> app_state option" where
  "handleScannerFileSelected wd files st =
     (case files of
        [] \<Rightarrow> Some st
      | file # _ \<Rightarrow>
          let extractedPrice = extractPriceFromFilename (name_f file);
              st1 = st\<lparr>error_s := None, bookData := None, status_s := ANALYZING_IMAGE\<rparr>
          in (case readAsDataURL wd file of
                None \<Rightarrow> None
              | Some base64 \<Rightarrow>
                  let st2 = st1\<lparr>image_s := Some base64\<rparr>
                  in (case processImagePipeline wd base64 (autoCrop st) of
                        Inr result \<Rightarrow>
                          Some (st2\<lparr>bookData := Some \<lparr>title = title_p result,
                                                      author = author_p result,
                                                      synopsis = synopsis_p result,
                                                      price = extractedPrice,
                                                      category = category_p result\<rparr>,
                                    image_s := Some (processedImage_p result),
                                    status_s := COMPLETED\<rparr>)
                      | Inl (Error msg) \<Rightarrow>
                          Some (st2\<lparr>error_s := Some \<lparr>message =
                                       (if msg = [] then ''An unexpected error occurred.'' else msg)\<rparr>,
                                    status_s := ERROR\<rparr>))))"

subsection \<open>Bulk import\<close>

text \<open>Each selected file comes with the identifier \<open>crypto.randomUUID()\<close> returned for it
  and with its object URL.\<close>

definition handleBulkFilesSelected :: "(string \<times> string \<times> File) list \<Rightarrow> app_state \<Rightarrow> app_state" where
  "handleBulkFilesSelected files st =
     st\<lparr>bulkItems := bulkItems st @
          map (\<lambda>(uuid, url, file).
                 \<lparr>id_b = uuid, file_b = file, previewUrl = url, status_b = St_idle,
                  data_b = \<lparr>title = [], author = [], synopsis = [],
                            price = extractPriceFromFilename (name_f file), category = []\<rparr>,
                  processedImage = None, error_b = None\<rparr>) files\<rparr>"

text \<open>
  The three updates of \<open>bulkItems\<close> in the loop body. Each maps over the list of the
  moment and changes the items that carry the identifier of the item in hand. The
  completed update builds \<open>{ ...i.data, ...result, price: i.data.price }\<close>: the five
  fields of the book data, the price written last from the item itself. (The spread
  also copies \<open>processedImage\<close> into the object; it is no field of the book data.)
\<close>

definition set_processing :: "BulkImportItem \<Rightarrow> BulkImportItem list \<Rightarrow> BulkImportItem list" where
  "set_processing item prev =
     map (\<lambda>i. if id_b i = id_b item then i\<lparr>status_b := St_processing\<rparr> else i) prev"

definition set_completed :: "BulkImportItem \<Rightarrow> PipelineResult \<Rightarrow> BulkImportItem list \<Rightarrow> BulkImportItem list" where
  "set_completed item result prev =
     map (\<lambda>i. if id_b i = id_b item
               then i\<lparr>status_b := St_completed,
                      data_b := \<lparr>title = title_p result, author = author_p result,
                                 synopsis = synopsis_p result, price = price (data_b i),
                                 category = category_p result\<rparr>,
                      processedImage := Some (processedImage_p result)\<rparr>
               else i) prev"

definition set_error :: "BulkImportItem \<Rightarrow> BulkImportItem list \<Rightarrow> BulkImportItem list" where
  "set_error item prev =
     map (\<lambda>i. if id_b i = id_b item then i\<lparr>status_b := St_error, error_b := Some ''Failed''\<rparr> else i) prev"

text \<open>
  The body of the \<open>try\<close> block for one item: read the file, run the pipeline. The
  environment is given per item (by identifier): the services answer each call on its
  own. \<open>None\<close>: the file reader never delivers, and the block never ends;
  \<open>Some (Inl e)\<close>: the block throws; \<open>Some (Inr result)\<close>: the pipeline's result.
\<close>

definition item_outcome :: "(string \<Rightarrow> world) \<Rightarrow> bool \<Rightarrow> BulkImportItem \<Rightarrow> (exn + PipelineResult) option" where
  "item_outcome W ac item =
     (case readAsDataURL (W (id_b item)) (file_b item) of
        None \<Rightarrow> None
      | Some base64 \<Rightarrow> Some (processImagePipeline (W (id_b item)) base64 ac))"

text \<open>One iteration of the loop of \<open>startBulkProcessing\<close>, on the list of the moment.\<close>

definition process_item :: "(string \<Rightarrow> world) \<Rightarrow> bool \<Rightarrow> BulkImportItem \<Rightarrow> BulkImportItem list \<Rightarrow> BulkImportItem list option" where
  "process_item W ac item items =
     (let items1 = set_processing item items
      in (case item_outcome W ac item of
            None \<Rightarrow> None
          | Some (Inr result) \<Rightarrow> Some (set_completed item result items1)
          | Some (Inl e) \<Rightarrow> Some (set_error item items1)))"

text \<open>The loop over \<open>itemsToProcess\<close>. \<open>None\<close>: the loop never ends.\<close>

fun bulk_loop :: "(string \<Rightarrow> world) \<Rightarrow> bool \<Rightarrow> BulkImportItem list \<Rightarrow> BulkImportItem list \<Rightarrow> BulkImportItem list option" where
  "bulk_loop W ac [] items = Some items"
| "bulk_loop W ac (item # rest) items =
     (case process_item W ac item items of
        None \<Rightarrow> None
      | Some items2 \<Rightarrow> bulk_loop W ac rest items2)"

definition startBulkProcessing :: "(string \<Rightarrow> world) \<Rightarrow> app_state \<Rightarrow> app_state option" where
  "startBulkProcessing W st =
     (let itemsToProcess = filter (\<lambda>item. status_b item = St_idle) (bulkItems st)
      in (case bulk_loop W (autoCrop st) itemsToProcess (bulkItems st) of
            None \<Rightarrow> None
          | Some items \<Rightarrow> Some (st\<lparr>bulkItems := items, isBulkProcessing := False\<rparr>)))"

subsection \<open>History and archive\<close>

definition restoreArchivedItem :: "string \<Rightarrow> app_state \<Rightarrow> app_state" where
  "restoreArchivedItem ident st =
     (case find (\<lambda>item. id_h item = ident) (archived st) of
        None \<Rightarrow> st
      | Some itemToRestore \<Rightarrow>
          st\<lparr>archived := filter (\<lambda>item. id_h item \<noteq> ident) (archived st),
             history := itemToRestore # history st\<rparr>)"

subsection \<open>Export\<close>

definition headers :: "string list" where
  "headers =
     [''parent_sku'', ''sku'', ''post_title'', ''post_excerpt'', ''post_content'',
      ''post_status'', ''regular_price'', ''sale_price'', ''stock_status'', ''stock'',
      ''manage_stock'', ''weight'', ''Images'', ''tax:product_type'',
      ''tax:product_cat'', ''tax:product_tag'']"

text \<open>The base URL for the year and the month index (\<open>getMonth()\<close>, from 0) of the export.\<close>

definition baseUrl :: "nat \<Rightarrow> nat \<Rightarrow> string" where
  "baseUrl year month0 =
     ''https://hemingwaysbooks.co.za/wp-content/uploads/'' @ String_nat year @ ''/''
       @ padStart2 (String_nat (month0 + 1)) @ ''/''"

text \<open>\<open>replace(/[^a-z0-9]+/g, '_')\<close>: the flag says that the previous character was
  already replaced. In \<open>safeTitle\<close> it follows \<open>toLowerCase\<close>, so that of the lower-cased
  text only the letters \<open>a\<close> to \<open>z\<close> and the digits remain: what lower-casing does to any
  other character is replaced all the same, and the ASCII mapping stands for it.\<close>

fun replace_runs :: "bool \<Rightarrow> string \<Rightarrow> string" where
  "replace_runs prev [] = []"
| "replace_runs prev (c # cs) =
     (if is_lower c \<or> is_digit c then c # replace_runs False cs
      else if prev then replace_runs True cs
      else CHR ''_'' # replace_runs True cs)"

definition safeTitle :: "string \<Rightarrow> string" where
  "safeTitle t =
     (let u = replace_runs False (toLowerCase (trim t))
      in rev (dropWhile (\<lambda>c. c = CHR ''_'') (rev (dropWhile (\<lambda>c. c = CHR ''_'') u))))"

definition imageName :: "HistoryItem \<Rightarrow> string" where
  "imageName item =
     (if image_h item \<noteq> [] \<and> startsWith ''data:image'' (image_h item)
      then let extension = substring (indexOf (CHR ''/'') (image_h item) + 1)
                                     (indexOf (CHR '';'') (image_h item)) (image_h item)
           in safeTitle (title item) @ ''_'' @ id_h item @ ''.'' @ extension
      else [])"

definition dquote :: char where
  "dquote = CHR 0x22"

definition escape :: "string \<Rightarrow> string" where
  "escape txt =
     (if txt = [] then []
      else [dquote] @ concat (map (\<lambda>c. if c = dquote then [dquote, dquote] else [c]) txt) @ [dquote])"

text \<open>The separator of the post title: a space, an en dash (its three bytes) and a space.\<close>

definition title_sep :: string where
  "title_sep = [CHR '' '', CHR 0xE2, CHR 0x80, CHR 0x93, CHR '' '']"

definition row :: "string \<Rightarrow> HistoryItem \<Rightarrow> string list" where
  "row base item =
     (let imageUrl = (if imageName item \<noteq> [] then base @ imageName item else [])
      in [[],
          escape (take 8 (id_h item)),
          escape (title item @ title_sep @ author item),
          escape (synopsis item),
          escape (synopsis item),
          ''publish'',
          price item,
          [],
          ''instock'',
          ''1'',
          ''yes'',
          [],
          imageUrl,
          ''simple'',
          escape (map (\<lambda>c. if c = CHR ''/'' then CHR '','' else c) (category item)),
          escape (author item)])"

definition csvContent :: "string \<Rightarrow> HistoryItem list \<Rightarrow> string" where
  "csvContent base items =
     join '','' headers @ [CHR 0x0A]
       @ concat (map (\<lambda>item. join '','' (row base item) @ [CHR 0x0A]) items)"

text \<open>\<open>zip.file(name, data)\<close>: a file of that name is replaced.\<close>

definition zip_file :: "string \<Rightarrow> string \<Rightarrow> (string \<times> string) list \<Rightarrow> (string \<times> string) list" where
  "zip_file name' data' z =
     (if name' \<in> fst ` set z then map (\<lambda>(n, d). if n = name' then (n, data') else (n, d)) z
      else z @ [(name', data')])"

definition zip_images :: "HistoryItem list \<Rightarrow> (string \<times> string) list" where
  "zip_images items =
     fold (\<lambda>item z. if imageName item \<noteq> []
                     then zip_file (imageName item) (strip_data_uri (image_h item)) z
                     else z) items []"

text \<open>
  \<open>exportToWooCommerce\<close> for the year and month index of the export date. It returns
  the packed archive (\<open>None\<close> when the history is empty and nothing is exported) and the
  state, or the error with which \<open>generateAsync\<close> rejects; the statements that move
  the history to the archive come after that call. The download's file name is left
  out.
\<close>

definition exportToWooCommerce :: "world \<Rightarrow> nat \<Rightarrow> nat \<Rightarrow> app_state \<Rightarrow> exn + (string option \<times> app_state)" where
  "exportToWooCommerce wd year month0 st =
     (if length (history st) = 0 then Inr (None, st)
      else
        let z = zip_file ''products.csv'' (csvContent (baseUrl year month0) (history st))
                  (zip_images (history st))
        in (case generateAsync wd z of
              Inl e \<Rightarrow> Inl e
            | Inr blob \<Rightarrow>
                let justProcessed = history st
                in Inr (Some blob,
                        st\<lparr>archived := justProcessed @ archived st,
                           history := [],
                           activeTab := Tab_archived\<rparr>)))"

section \<open>Example inputs\<close>

text \<open>
  A concrete environment and concrete states, on which the theorems below are
  instantiated. In \<open>world_ex\<close> the vision call fails on the image \<open>BAD\<close> and
  answers every other image; its answer carries a price, which no handler reads. Its
  canvas encodes a canvas whose width or height is NaN as the empty image \<open>data:,\<close>
  (such a canvas has size 0, and nothing is drawn on it). Its case mappings are the
  ASCII ones, which is what the runtime's are on the ASCII text of the examples.
\<close>

definition ident_ex :: BookAnalysisResult where
  "ident_ex = \<lparr>title_opt = Some ''the LORD of the rings'', author_opt = Some ''j TOLKIEN'',
     box_2d = Some [Num 0, Num 0, Num 1000, Num 1000], categories = Some [''Fiction'', ''Classics and Poetry''],
     category_opt = None, price_opt = Some ''999'', synopsis_opt = None\<rparr>"

definition world_ex :: world where
  "world_ex = \<lparr>readAsDataURL = (\<lambda>f. Some (content_f f)),
     generateContent_vision = (\<lambda>d. if d = ''BAD'' then Inl (Error ''503'') else Inr (Some ''{}'')),
     JSON_parse = (\<lambda>t. Inr ident_ex),
     generateContent_search = (\<lambda>t a. Inr (Some '' A tale of a ring. '')),
     load_image = (\<lambda>b. Some (800, 600)),
     canvas_draw = (\<lambda>b (x, y, w, h). if w = NaN \<or> h = NaN then Inr (Some ''data:,'')
                                         else Inr (Some ''data:image/jpeg;base64,CROP'')),
     generateAsync = (\<lambda>z. Inr ''blob''),
     String_toLowerCase = toLowerCase,
     String_toUpperCase = toUpperCase\<rparr>"

definition world_down :: world where
  "world_down = world_ex\<lparr>generateContent_search := (\<lambda>t a. Inl (Error ''network''))\<rparr>"

definition ident_single :: BookAnalysisResult where
  "ident_single = ident_ex\<lparr>categories := None, category_opt := Some ''Fiction''\<rparr>"

definition world_one :: world where
  "world_one = world_ex\<lparr>JSON_parse := (\<lambda>t. Inr ident_single)\<rparr>"

definition item_a :: HistoryItem where
  "item_a = \<lparr>title = ''Dune'', author = ''Frank Herbert'', synopsis = ''A desert planet.'',
     price = ''120'', category = ''Fiction'', id_h = ''id-a'',
     image_h = ''data:image/png;base64,AAAA'', timestamp = 2\<rparr>"

definition item_b :: HistoryItem where
  "item_b = \<lparr>title = ''Emma'', author = ''Jane Austen'', synopsis = ''A match-maker.'',
     price = ''1,500'', category = ''Fiction'', id_h = ''id-b'', image_h = [], timestamp = 1\<rparr>"

definition item_c :: HistoryItem where
  "item_c = \<lparr>title = ''Ulysses'', author = ''James Joyce'', synopsis = ''One day in Dublin.'',
     price = ''300'', category = ''Fiction'', id_h = ''id-c'', image_h = [], timestamp = 0\<rparr>"

definition file_1 :: File where
  "file_1 = \<lparr>name_f = ''380.1.jpg'', content_f = ''data:image/jpeg;base64,AAAA''\<rparr>"

definition file_2 :: File where
  "file_2 = \<lparr>name_f = ''cover.jpg'', content_f = ''BAD''\<rparr>"

definition file_3 :: File where
  "file_3 = \<lparr>name_f = ''250-x.png'', content_f = ''data:image/png;base64,BBBB''\<rparr>"

definition state_ex :: app_state where
  "state_ex = \<lparr>image_s = None, status_s = IDLE, bookData = None, error_s = None,
     autoCrop = True, history = [item_a, item_b], archived = [item_c], bulkItems = [],
     isBulkProcessing = False, activeTab = Tab_scanner\<rparr>"

definition third_man :: string where
  "third_man = ''the 3rd man''"



text \<open>A box that \<open>JSON.parse\<close> makes of \<open>[1e999, 0, 1e999, 1000]\<close>.\<close>

definition box_inf :: "jsnum \<times> jsnum \<times> jsnum \<times> jsnum" where
  "box_inf = (PosInf, Num 0, PosInf, Num 1000)"

text \<open>The smallest positive double, which \<open>JSON.parse\<close> makes of \<open>5e-324\<close>.\<close>

definition min_double :: rat where
  "min_double = 1 / 2 ^ 1074"

definition state_bulk :: app_state where
  "state_bulk = handleBulkFilesSelected
     [(''u1'', ''blob:1'', file_1), (''u2'', ''blob:2'', file_2), (''u3'', ''blob:3'', file_3)] state_ex"

text \<open>
  The bulk items that \<open>handleBulkFilesSelected\<close> makes of the three files in
  \<open>state_bulk\<close>, and the result of the pipeline in \<open>world_ex\<close>.
\<close>

definition bulk_1 :: BulkImportItem where
  "bulk_1 = \<lparr>id_b = ''u1'', file_b = file_1, previewUrl = ''blob:1'', status_b = St_idle,
     data_b = \<lparr>title = [], author = [], synopsis = [], price = ''380'', category = []\<rparr>,
     processedImage = None, error_b = None\<rparr>"

definition bulk_2 :: BulkImportItem where
  "bulk_2 = \<lparr>id_b = ''u2'', file_b = file_2, previewUrl = ''blob:2'', status_b = St_idle,
     data_b = \<lparr>title = [], author = [], synopsis = [], price = [], category = []\<rparr>,
     processedImage = None, error_b = None\<rparr>"

definition bulk_3 :: BulkImportItem where
  "bulk_3 = \<lparr>id_b = ''u3'', file_b = file_3, previewUrl = ''blob:3'', status_b = St_idle,
     data_b = \<lparr>title = [], author = [], synopsis = [], price = ''250'', category = []\<rparr>,
     processedImage = None, error_b = None\<rparr>"

definition result_ex :: PipelineResult where
  "result_ex = \<lparr>title_p = ''The Lord Of The Rings'', author_p = ''J Tolkien'',
     category_p = ''Fiction, Classics and Poetry'', synopsis_p = ''A tale of a ring.'',
     processedImage_p = ''data:image/jpeg;base64,CROP''\<rparr>"

section \<open>Numbers\<close>

text \<open>
  A positive rational that is a multiple of the spacing of its binade, and below
  \<open>2 ^ 1024\<close>, is a double: rounding leaves it as it is. The image sizes and the box
  coordinates of the examples are such numbers.
\<close>

lemma pow2_pos: "0 < pow2 e"
  by (simp add: pow2_def)

lemma round_half_even_int: "round_half_even (of_int n) = n"
  by (simp add: round_half_even_def)

lemma round_double_exact:
  assumes "0 < q" and "floor_log2 q = e" and "- 1022 \<le> e"
    and "of_int n * pow2 (e - 52) = q" and "q < pow2 1024"
  shows "round_double q = Num q"
proof -
  have a: "\<bar>q\<bar> = q" using assms(1) by simp
  have m: "max (floor_log2 q) (- 1022) = e" using assms(2,3) by simp
  have "q / pow2 (e - 52) = of_int n"
    using assms(4) pow2_pos [of "e - 52"] by (simp add: field_simps)
  then have r: "of_int (round_half_even (q / pow2 (e - 52))) * pow2 (e - 52) = q"
    using assms(4) by (simp add: round_half_even_int)
  from assms(1,5) show ?thesis
    by (simp add: round_double_def a m r Let_def)
qed

lemma round_double_0: "round_double 0 = Num 0"
  by (simp add: round_double_def)

lemma round_double_1: "round_double 1 = Num 1"
  by (rule round_double_exact [where e = 0 and n = "2 ^ 52"])
     (simp_all add: floor_log2_def bit_length.simps pow2_def)

lemma round_double_600: "round_double 600 = Num 600"
  by (rule round_double_exact [where e = 9 and n = "600 * 2 ^ 43"])
     (simp_all add: floor_log2_def bit_length.simps pow2_def)

lemma round_double_800: "round_double 800 = Num 800"
  by (rule round_double_exact [where e = 9 and n = "800 * 2 ^ 43"])
     (simp_all add: floor_log2_def bit_length.simps pow2_def)

lemma round_double_1000: "round_double 1000 = Num 1000"
  by (rule round_double_exact [where e = 9 and n = "1000 * 2 ^ 43"])
     (simp_all add: floor_log2_def bit_length.simps pow2_def)

text \<open>
  Below \<open>2 ^ -1022\<close> the doubles are the multiples of \<open>2 ^ -1074\<close>: the smallest of them
  is a double, and a thousandth of it rounds to zero.
\<close>

lemma bit_length_lower: "2 ^ k \<le> n \<Longrightarrow> k < bit_length n"
proof (induction k arbitrary: n)
  case 0
  then show ?case by (simp add: bit_length.simps [of n])
next
  case (Suc k)
  then have "2 ^ k \<le> n div 2" by simp
  then have "k < bit_length (n div 2)" by (rule Suc.IH)
  moreover have "n \<noteq> 0"
  proof
    assume "n = 0"
    with Suc.prems show False by simp
  qed
  ultimately show ?case by (simp add: bit_length.simps [of n])
qed

lemma floor_log2_small:
  fixes k :: nat
  assumes "0 < q" and "q * 2 ^ k < 1"
  shows "floor_log2 q \<le> - int k"
proof -
  from assms have 1: "2 ^ k < 1 / q" by (simp add: field_simps)
  have "1 / q \<le> of_int \<lceil>1 / q\<rceil>" by (rule le_of_int_ceiling)
  with 1 have "2 ^ k < (of_int \<lceil>1 / q\<rceil> :: rat)" by (rule less_le_trans)
  moreover have "(2 :: rat) ^ k = of_int (2 ^ k)" by simp
  ultimately have "(of_int (2 ^ k) :: rat) < of_int \<lceil>1 / q\<rceil>" by (simp only:)
  then have "(2 :: int) ^ k < \<lceil>1 / q\<rceil>" by (simp only: of_int_less_iff)
  then have "int (2 ^ k) \<le> \<lceil>1 / q\<rceil> - 1" by simp
  then have "2 ^ k \<le> nat (\<lceil>1 / q\<rceil> - 1)" by linarith
  then have b: "k < bit_length (nat (\<lceil>1 / q\<rceil> - 1))" by (rule bit_length_lower)
  have "(1 :: rat) \<le> 2 ^ k" by simp
  with assms have "\<not> 1 \<le> q"
    by (metis less_le_not_le mult_le_cancel_left1 mult.commute not_le order_trans mult_left_le one_le_power one_le_numeral linorder_not_less mult_le_one zero_less_one_class.zero_le_one)
  with b show ?thesis by (simp add: floor_log2_def)
qed


lemma round_double_small:
  assumes "0 < q" and "q * 2 ^ 1022 < 1"
    and "round_half_even (q / pow2 (- 1074)) = n"
    and "of_int n * pow2 (- 1074) < pow2 1024"
  shows "round_double q = Num (of_int n * pow2 (- 1074))"
proof -
  have a: "\<bar>q\<bar> = q" using assms(1) by simp
  have "floor_log2 q \<le> - int 1022"
    using assms(1,2) by (rule floor_log2_small)
  then have m: "max (floor_log2 q) (- 1022) = - 1022" by simp
  from assms(1) have q0: "q \<noteq> 0" by simp
  from assms(4) have r: "\<not> pow2 1024 \<le> of_int n * pow2 (- 1074)" by simp
  show ?thesis
    using assms(1,3) r q0 by (simp add: round_double_def a m Let_def)
qed

lemma round_double_min: "round_double min_double = Num min_double"
  using round_double_small [of "1 / 2 ^ 1074" 1]
  by (simp add: round_half_even_def pow2_def Let_def min_double_def)

lemma round_half_even_small: "0 \<le> x \<Longrightarrow> x < 1 / 2 \<Longrightarrow> round_half_even x = 0"
proof -
  assume "0 \<le> x" and h: "x < 1 / 2"
  then have "\<lfloor>x\<rfloor> = 0" by (simp add: floor_eq_iff)
  with h show ?thesis by (simp add: round_half_even_def)
qed

lemma round_double_underflow: "round_double (min_double / 1000) = Num 0"
  using round_double_small [of "1 / 2 ^ 1074 / 1000" 0] round_half_even_small [of "1 / 1000"]
  by (simp add: pow2_def min_double_def)

lemmas number_eval = js_sub_def js_mul_def js_div_def js_le_def Math_max_def Math_min_def
  js_sign_def inf_signed_def round_double_0 round_double_1 round_double_600 round_double_800
  round_double_1000

section \<open>Evaluation\<close>

lemmas text_eval = digit_chars_def upper_letters_def lower_letters_def is_digit_def is_upper_def
  is_lower_def is_alpha_def toLower_c_def toUpper_c_def toLowerCase_def toUpperCase_def
  startsWith_def is_space_def trim_def indexOf_def substring_def padStart2_def strip_data_uri_def

lemmas pipeline_eval = processImagePipeline_def identifyBookFromImage_def
  findOrGenerateSynopsis_def cropImage_def crop_rect_def toTitleCase_def or_default_def Let_def
  number_eval

lemmas example_defs = ident_ex_def world_ex_def world_down_def ident_single_def world_one_def item_a_def
  item_b_def item_c_def file_1_def file_2_def file_3_def state_ex_def state_bulk_def third_man_def box_inf_def min_double_def
  bulk_1_def bulk_2_def bulk_3_def result_ex_def

section \<open>Synopsis adapter\<close>

text \<open>
  C9. The synopsis adapter never rejects: whatever the service does, the promise
  resolves with a text. When the service call throws, that text is the fixed
  placeholder.
\<close>

theorem synopsis_soft_failure:
  "(\<exists>s. findOrGenerateSynopsis wd t a = Inr s) \<and>
   (isl (generateContent_search wd t a) \<longrightarrow>
      findOrGenerateSynopsis wd t a = Inr ''Could not retrieve synopsis due to an error.'')"
  by (auto simp: findOrGenerateSynopsis_def split: sum.splits option.splits)

theorem synopsis_soft_failure_witness:
  "isl (generateContent_search world_down ''Dune'' ''Frank Herbert'') \<and>
   findOrGenerateSynopsis world_down ''Dune'' ''Frank Herbert''
     = Inr ''Could not retrieve synopsis due to an error.''"
  using synopsis_soft_failure [of world_down "''Dune''" "''Frank Herbert''"]
  by (simp add: world_down_def world_ex_def)

section \<open>Image cropper\<close>

lemma cropImage_total: "\<exists>s. cropImage wd b box = Inr s"
  by (auto simp: cropImage_def split: option.splits sum.splits prod.splits)

lemma crop_rect_full:
  "crop_rect (Num 0, Num 0, Num 1000, Num 1000) 800 600 = (Num 0, Num 0, Num 800, Num 600)"
  by (simp add: crop_rect_def Let_def number_eval)

lemma crop_rect_inf: "crop_rect box_inf 800 600 = (Num 0, PosInf, Num 800, NaN)"
  by (simp add: crop_rect_def box_inf_def Let_def number_eval)

text \<open>
  A box whose height in pixels underflows to zero: the cropper resolves with the
  original image.
\<close>

lemma crop_rect_underflow:
  "crop_rect (Num 0, Num 0, Num min_double, Num 1000) 800 600 = (Num 0, Num 0, Num 800, Num 0)"
  by (simp add: crop_rect_def Let_def number_eval round_double_min round_double_underflow)

lemma cropImage_underflow:
  "cropImage world_ex ''data:image/jpeg;base64,AAAA'' (Num 0, Num 0, Num min_double, Num 1000)
     = Inr ''data:image/jpeg;base64,AAAA''"
  by (simp add: cropImage_def crop_rect_underflow world_ex_def js_le_def)

text \<open>
  C6. For the box \<open>[1e999, 0, 1e999, 1000]\<close>, whose first and third numbers
  \<open>JSON.parse\<close> reads as Infinity, on an image of 800 by 600: \<open>y\<close> is Infinity and the
  height \<open>h\<close> of the rectangle is NaN (Infinity minus Infinity). NaN is not at most the
  height of the image, and it is not at most 0 either: the test \<open>w <= 0 || h <= 0\<close>
  is false, the cropper does not resolve with the original image, and it draws on a
  canvas of height NaN, whose encoding it resolves with.
\<close>

theorem cropper_nan_unclamped:
  "load_image world_ex ''data:image/jpeg;base64,AAAA'' = Some (800, 600) \<and>
   crop_rect box_inf 800 600 = (Num 0, PosInf, Num 800, NaN) \<and>
   \<not> js_le NaN (Num 600) \<and>
   \<not> (js_le (Num 800) (Num 0) \<or> js_le NaN (Num 0)) \<and>
   cropImage world_ex ''data:image/jpeg;base64,AAAA'' box_inf = Inr ''data:,''"
  by (simp add: cropImage_def crop_rect_inf world_ex_def js_le_def)

section \<open>Export and archive\<close>

text \<open>
  C2. An export of a non-empty history that completes leaves the history empty and
  puts the entries of the history, unchanged and in their order, in front of the
  entries that were archived before.
\<close>

theorem export_post_effect:
  assumes "history st \<noteq> []" and "\<not> isl (exportToWooCommerce wd year month0 st)"
  shows "\<exists>blob st'. exportToWooCommerce wd year month0 st = Inr (Some blob, st') \<and>
           history st' = [] \<and>
           archived st' = history st @ archived st \<and>
           take (length (history st)) (archived st') = history st \<and>
           drop (length (history st)) (archived st') = archived st"
  using assms by (auto simp: exportToWooCommerce_def Let_def split: sum.splits)

theorem export_post_effect_witness:
  "history state_ex \<noteq> [] \<and> \<not> isl (exportToWooCommerce world_ex 2026 10 state_ex) \<and>
   (\<exists>blob st'. exportToWooCommerce world_ex 2026 10 state_ex = Inr (Some blob, st') \<and>
      history st' = [] \<and> archived st' = [item_a, item_b, item_c])"
proof -
  have a: "history state_ex \<noteq> []" by (simp add: state_ex_def)
  have b: "\<not> isl (exportToWooCommerce world_ex 2026 10 state_ex)"
    by (simp add: exportToWooCommerce_def Let_def state_ex_def world_ex_def)
  have c: "history state_ex @ archived state_ex = [item_a, item_b, item_c]"
    by (simp add: state_ex_def)
  from export_post_effect [OF a b] c a b show ?thesis by auto
qed

lemma find_first_distinct:
  "e \<in> set xs \<Longrightarrow> distinct (map f xs) \<Longrightarrow> find (\<lambda>i. f i = f e) (xs @ ys) = Some e"
  by (induction xs) (auto simp: image_iff)

text \<open>
  C8. When the identifiers of the history are distinct, exporting the history and then
  restoring an entry by its identifier puts that entry, every field as it was, back in
  the history; the archive keeps the other entries.
\<close>

theorem archive_restore_round_trip:
  assumes "e \<in> set (history st)" and "distinct (map id_h (history st))"
    and "exportToWooCommerce wd year month0 st = Inr (out, st')"
  shows "history (restoreArchivedItem (id_h e) st') = [e] \<and>
         archived (restoreArchivedItem (id_h e) st')
           = filter (\<lambda>i. id_h i \<noteq> id_h e) (history st @ archived st)"
proof -
  from assms(1) have ne: "history st \<noteq> []" by auto
  from assms(3) ne have h: "history st' = []" and a: "archived st' = history st @ archived st"
    by (auto simp: exportToWooCommerce_def Let_def split: sum.splits)
  have f: "find (\<lambda>item. id_h item = id_h e) (archived st') = Some e"
    unfolding a using assms(1,2) by (rule find_first_distinct)
  show ?thesis
    using f h a
    by (simp add: restoreArchivedItem_def)
qed

theorem archive_restore_round_trip_witness:
  "item_b \<in> set (history state_ex) \<and> distinct (map id_h (history state_ex)) \<and>
   (\<exists>out st'. exportToWooCommerce world_ex 2026 10 state_ex = Inr (out, st') \<and>
      history (restoreArchivedItem (id_h item_b) st') = [item_b])"
proof -
  have a: "item_b \<in> set (history state_ex)" by (simp add: state_ex_def)
  have b: "distinct (map id_h (history state_ex))"
    by (simp add: state_ex_def item_a_def item_b_def)
  obtain out st' where c: "exportToWooCommerce world_ex 2026 10 state_ex = Inr (out, st')"
    by (simp add: exportToWooCommerce_def Let_def state_ex_def world_ex_def)
  from archive_restore_round_trip [OF a b c] a b c show ?thesis by blast
qed

section \<open>Scanner\<close>

text \<open>
  C10. In scanner mode, when the file is read and the pipeline succeeds, the handler
  completes with a record whose title, author, synopsis and category are the pipeline's
  and whose price is the run of digits the file name starts with (empty when it starts
  with none): the name is that run followed by a rest that does not start with a digit.
\<close>

theorem scanner_price_provenance:
  assumes "readAsDataURL wd file = Some base64"
    and "processImagePipeline wd base64 (autoCrop st) = Inr r"
  shows "\<exists>st' rest. handleScannerFileSelected wd (file # files) st = Some st' \<and>
           status_s st' = COMPLETED \<and>
           bookData st' = Some \<lparr>title = title_p r, author = author_p r, synopsis = synopsis_p r,
                                price = takeWhile is_digit (name_f file), category = category_p r\<rparr> \<and>
           name_f file = takeWhile is_digit (name_f file) @ rest \<and>
           (rest = [] \<or> \<not> is_digit (hd rest))"
proof -
  let ?p = "takeWhile is_digit (name_f file)"
  let ?rest = "dropWhile is_digit (name_f file)"
  have 1: "name_f file = ?p @ ?rest" by simp
  have 2: "?rest = [] \<or> \<not> is_digit (hd ?rest)"
    by (metis hd_dropWhile)
  define st' where "st' = the (handleScannerFileSelected wd (file # files) st)"
  from assms have 3: "handleScannerFileSelected wd (file # files) st = Some st'
      \<and> status_s st' = COMPLETED
      \<and> bookData st' = Some \<lparr>title = title_p r, author = author_p r, synopsis = synopsis_p r,
                                price = ?p, category = category_p r\<rparr>"
    by (simp add: st'_def handleScannerFileSelected_def Let_def extractPriceFromFilename_def)
  from 1 2 3 show ?thesis by blast
qed

theorem scanner_price_provenance_witness:
  "readAsDataURL world_ex file_1 = Some ''data:image/jpeg;base64,AAAA'' \<and>
   (\<exists>st'. handleScannerFileSelected world_ex [file_1] state_ex = Some st' \<and>
      map_option price (bookData st') = Some ''380'')"
proof -
  have a: "readAsDataURL world_ex file_1 = Some ''data:image/jpeg;base64,AAAA''"
    by (simp add: world_ex_def file_1_def)
  have b: "processImagePipeline world_ex ''data:image/jpeg;base64,AAAA'' (autoCrop state_ex)
      = Inr \<lparr>title_p = ''The Lord Of The Rings'', author_p = ''J Tolkien'',
        category_p = ''Fiction, Classics and Poetry'',
        synopsis_p = ''A tale of a ring.'',
        processedImage_p = ''data:image/jpeg;base64,CROP''\<rparr>"
    by (simp add: pipeline_eval world_ex_def ident_ex_def state_ex_def text_eval)
  have c: "takeWhile is_digit (name_f file_1) = ''380''" by (simp add: file_1_def text_eval)
  from scanner_price_provenance [OF a b, of "[]"] c a show ?thesis by auto
qed

section \<open>Cataloging pipeline\<close>

lemma synopsis_total: "\<exists>s. findOrGenerateSynopsis wd t a = Inr s"
  by (auto simp: findOrGenerateSynopsis_def split: sum.splits option.splits)

lemma pipeline_after_identify:
  assumes "identifyBookFromImage wd img = Inr identity"
  shows "\<exists>r. processImagePipeline wd img ac = Inr r \<and>
           category_p r =
             (if categories identity \<noteq> None \<and> length (the (categories identity)) > 0
              then join '', '' (the (categories identity))
              else if category_opt identity \<noteq> None \<and> the (category_opt identity) \<noteq> []
              then the (category_opt identity)
              else [])"
proof -
  let ?t = "toTitleCase (String_toLowerCase wd) (String_toUpperCase wd) (CHR '' '')
              (or_default (title_opt identity) ''Unknown Title'')"
  let ?a = "toTitleCase (String_toLowerCase wd) (String_toUpperCase wd) (CHR '' '')
              (or_default (author_opt identity) ''Unknown Author'')"
  obtain s where s: "findOrGenerateSynopsis wd ?t ?a = Inr s"
    using synopsis_total by blast
  have c: "\<And>box. \<exists>u. cropImage wd img box = Inr u"
    using cropImage_total by blast
  let ?crop = "(if ac \<and> box_2d identity \<noteq> None \<and> length (the (box_2d identity)) = 4
                 then (case the (box_2d identity) of
                         [ymin, xmin, ymax, xmax] \<Rightarrow> cropImage wd img (ymin, xmin, ymax, xmax)
                       | _ \<Rightarrow> Inr img)
                 else Inr img)"
  have "\<exists>u. ?crop = Inr u"
    using c by (auto split: list.splits)
  then obtain u where u: "?crop = Inr u" by blast
  show ?thesis
    using assms s u by (simp add: processImagePipeline_def Let_def)
qed

text \<open>
  C4. Whenever identification succeeds, the pipeline succeeds, and its category is the
  labels joined by a comma and a space when the list of categories is present and not
  empty. When the list is absent or empty, the category is the single \<open>category\<close> field
  of the identification result if that is present and not empty, and empty text
  otherwise.
\<close>

theorem pipeline_category:
  assumes "identifyBookFromImage wd img = Inr identity"
  shows "\<exists>r. processImagePipeline wd img ac = Inr r \<and>
           category_p r =
             (case categories identity of
                Some (c # cs) \<Rightarrow> join '', '' (c # cs)
              | _ \<Rightarrow> (case category_opt identity of Some (d # ds) \<Rightarrow> d # ds | _ \<Rightarrow> []))"
  using pipeline_after_identify [OF assms, of ac]
  by (auto split: option.splits list.splits)

theorem pipeline_category_witness:
  "identifyBookFromImage world_ex ''data:image/jpeg;base64,AAAA'' = Inr ident_ex \<and>
   (\<exists>r. processImagePipeline world_ex ''data:image/jpeg;base64,AAAA'' True = Inr r \<and>
        category_p r = ''Fiction, Classics and Poetry'')"
proof -
  have a: "identifyBookFromImage world_ex ''data:image/jpeg;base64,AAAA'' = Inr ident_ex"
    by (simp add: identifyBookFromImage_def world_ex_def text_eval)
  have b: "(case categories ident_ex of
                Some (c # cs) \<Rightarrow> join '', '' (c # cs)
              | _ \<Rightarrow> (case category_opt ident_ex of Some (d # ds) \<Rightarrow> d # ds | _ \<Rightarrow> []))
           = ''Fiction, Classics and Poetry''"
    by (simp add: ident_ex_def)
  from pipeline_category [OF a, of True] b a show ?thesis by simp
qed

text \<open>
  The list of categories is absent, and the category of the pipeline is not empty: it
  is the single \<open>category\<close> field.
\<close>

theorem pipeline_category_counterexample:
  "identifyBookFromImage world_one ''data:image/jpeg;base64,AAAA'' = Inr ident_single \<and>
   categories ident_single = None \<and>
   map_sum id category_p (processImagePipeline world_one ''data:image/jpeg;base64,AAAA'' True)
     = Inr ''Fiction''"
  by (simp add: pipeline_eval world_one_def ident_single_def world_ex_def ident_ex_def text_eval)

section \<open>Export rows\<close>

text \<open>
  C5. The price cell of a row is the price as it stands. For the entry \<open>item_b\<close>, whose
  price the operator typed as \<open>1,500\<close>, the cell holds the comma with no quotes around
  it, where \<open>escape\<close> would have wrapped it, so that the line of the row reads
  \<open>...,publish,1,500,,instock,...\<close>.
\<close>

theorem export_price_cell_unescaped:
  "price item_b = ''1,500'' \<and>
   row (baseUrl 2026 10) item_b ! 6 = ''1,500'' \<and>
   escape ''1,500'' = [dquote] @ ''1,500'' @ [dquote] \<and>
   join '','' (row (baseUrl 2026 10) item_b)
     = '','' @ [dquote] @ ''id-b'' @ [dquote] @ '','' @ [dquote] @ ''Emma'' @ title_sep @ ''Jane Austen'' @ [dquote]
       @ '','' @ [dquote] @ ''A match-maker.'' @ [dquote] @ '','' @ [dquote] @ ''A match-maker.'' @ [dquote]
       @ '',publish,1,500,,instock,1,yes,,,simple,'' @ [dquote] @ ''Fiction'' @ [dquote]
       @ '','' @ [dquote] @ ''Jane Austen'' @ [dquote]"
  by (simp add: row_def escape_def imageName_def item_b_def dquote_def title_sep_def)

section \<open>Title caser\<close>


















section \<open>Batch orchestrator\<close>

lemma process_item_length:
  "process_item W ac item items = Some items2 \<Longrightarrow> length items2 = length items"
  by (auto simp: process_item_def set_processing_def set_completed_def set_error_def Let_def
           split: option.splits sum.splits)

lemma process_item_id:
  "process_item W ac item items = Some items2 \<Longrightarrow> n < length items \<Longrightarrow>
     id_b (items2 ! n) = id_b (items ! n)"
  by (auto simp: process_item_def set_processing_def set_completed_def set_error_def Let_def
           split: option.splits sum.splits)

lemma process_item_other:
  "process_item W ac item items = Some items2 \<Longrightarrow> n < length items \<Longrightarrow>
     id_b (items ! n) \<noteq> id_b item \<Longrightarrow> items2 ! n = items ! n"
  by (auto simp: process_item_def set_processing_def set_completed_def set_error_def Let_def
           split: option.splits sum.splits)

lemma process_item_completed:
  assumes "item_outcome W ac item = Some (Inr r)"
  shows "\<exists>items2. process_item W ac item items = Some items2 \<and>
           length items2 = length items \<and>
           (\<forall>n<length items.
              items2 ! n =
                (if id_b (items ! n) = id_b item
                 then (items ! n)\<lparr>status_b := St_completed,
                        data_b := \<lparr>title = title_p r, author = author_p r, synopsis = synopsis_p r,
                                   price = price (data_b (items ! n)), category = category_p r\<rparr>,
                        processedImage := Some (processedImage_p r)\<rparr>
                 else items ! n))"
  using assms
  by (simp add: process_item_def set_processing_def set_completed_def Let_def)

lemma process_item_error:
  assumes "item_outcome W ac item = Some (Inl e)"
  shows "\<exists>items2. process_item W ac item items = Some items2 \<and>
           length items2 = length items \<and>
           (\<forall>n<length items.
              items2 ! n =
                (if id_b (items ! n) = id_b item
                 then (items ! n)\<lparr>status_b := St_error, error_b := Some ''Failed''\<rparr>
                 else items ! n))"
  using assms
  by (simp add: process_item_def set_processing_def set_error_def Let_def)

lemma bulk_loop_length:
  "bulk_loop W ac todo items = Some items' \<Longrightarrow> length items' = length items"
proof (induction todo arbitrary: items)
  case Nil
  then show ?case by simp
next
  case (Cons item rest)
  then show ?case
    by (auto split: option.splits dest: process_item_length)
qed

lemma bulk_loop_unchanged:
  "bulk_loop W ac todo items = Some items' \<Longrightarrow> n < length items \<Longrightarrow>
     id_b (items ! n) \<notin> id_b ` set todo \<Longrightarrow> items' ! n = items ! n"
proof (induction todo arbitrary: items)
  case Nil
  then show ?case by simp
next
  case (Cons item rest)
  from Cons.prems(1) obtain items2 where
    s: "process_item W ac item items = Some items2" and l: "bulk_loop W ac rest items2 = Some items'"
    by (auto split: option.splits)
  from Cons.prems(3) have ne: "id_b (items ! n) \<noteq> id_b item" and nr: "id_b (items ! n) \<notin> id_b ` set rest"
    by auto
  have 1: "items2 ! n = items ! n"
    using s Cons.prems(2) ne by (rule process_item_other)
  have 2: "n < length items2"
    using process_item_length [OF s] Cons.prems(2) by simp
  from Cons.IH [OF l 2] nr 1 show ?case by simp
qed

lemma bulk_loop_terminates:
  "\<forall>item\<in>set todo. item_outcome W ac item \<noteq> None \<Longrightarrow> \<exists>items'. bulk_loop W ac todo items = Some items'"
proof (induction todo arbitrary: items)
  case Nil
  show ?case by simp
next
  case (Cons item rest)
  then obtain o' where o: "item_outcome W ac item = Some o'" by auto
  have "\<exists>items2. process_item W ac item items = Some items2"
    by (cases o') (use o process_item_error process_item_completed in blast)+
  then obtain items2 where s: "process_item W ac item items = Some items2" by blast
  from Cons.IH [of items2] Cons.prems s show ?case by simp
qed

lemma bulk_loop_completed:
  assumes "bulk_loop W ac todo items = Some items'"
    and "distinct (map id_b todo)" and "item \<in> set todo"
    and "n < length items" and "id_b (items ! n) = id_b item"
    and "item_outcome W ac item = Some (Inr r)"
  shows "items' ! n =
           (items ! n)\<lparr>status_b := St_completed,
              data_b := \<lparr>title = title_p r, author = author_p r, synopsis = synopsis_p r,
                         price = price (data_b (items ! n)), category = category_p r\<rparr>,
              processedImage := Some (processedImage_p r)\<rparr>"
  using assms
proof (induction todo arbitrary: items)
  case Nil
  then show ?case by simp
next
  case (Cons item0 rest)
  from Cons.prems(1) obtain items2 where
    s: "process_item W ac item0 items = Some items2" and l: "bulk_loop W ac rest items2 = Some items'"
    by (auto split: option.splits)
  have len: "n < length items2"
    using process_item_length [OF s] Cons.prems(4) by simp
  show ?case
  proof (cases "item = item0")
    case True
    from process_item_completed [OF Cons.prems(6), of items] s True Cons.prems(4,5)
    have 1: "items2 ! n = (items ! n)\<lparr>status_b := St_completed,
              data_b := \<lparr>title = title_p r, author = author_p r, synopsis = synopsis_p r,
                         price = price (data_b (items ! n)), category = category_p r\<rparr>,
              processedImage := Some (processedImage_p r)\<rparr>"
      by auto
    from Cons.prems(2) True have "id_b item \<notin> id_b ` set rest" by simp
    with 1 Cons.prems(5) have "id_b (items2 ! n) \<notin> id_b ` set rest" by simp
    from bulk_loop_unchanged [OF l len this] 1 show ?thesis by simp
  next
    case False
    with Cons.prems(3) have r: "item \<in> set rest" by simp
    with Cons.prems(2) have ne: "id_b item \<noteq> id_b item0" by (auto simp: image_iff)
    with Cons.prems(5) have "id_b (items ! n) \<noteq> id_b item0" by simp
    with s Cons.prems(4) have 1: "items2 ! n = items ! n" by (rule process_item_other)
    from Cons.prems(2) have d: "distinct (map id_b rest)" by simp
    from Cons.IH [OF l d r len _ Cons.prems(6)] 1 Cons.prems(5) show ?thesis by simp
  qed
qed

lemma bulk_loop_error:
  assumes "bulk_loop W ac todo items = Some items'"
    and "distinct (map id_b todo)" and "item \<in> set todo"
    and "n < length items" and "id_b (items ! n) = id_b item"
    and "item_outcome W ac item = Some (Inl e)"
  shows "items' ! n = (items ! n)\<lparr>status_b := St_error, error_b := Some ''Failed''\<rparr>"
  using assms
proof (induction todo arbitrary: items)
  case Nil
  then show ?case by simp
next
  case (Cons item0 rest)
  from Cons.prems(1) obtain items2 where
    s: "process_item W ac item0 items = Some items2" and l: "bulk_loop W ac rest items2 = Some items'"
    by (auto split: option.splits)
  have len: "n < length items2"
    using process_item_length [OF s] Cons.prems(4) by simp
  show ?case
  proof (cases "item = item0")
    case True
    from process_item_error [OF Cons.prems(6), of items] s True Cons.prems(4,5)
    have 1: "items2 ! n = (items ! n)\<lparr>status_b := St_error, error_b := Some ''Failed''\<rparr>"
      by auto
    from Cons.prems(2) True have "id_b item \<notin> id_b ` set rest" by simp
    with 1 Cons.prems(5) have "id_b (items2 ! n) \<notin> id_b ` set rest" by simp
    from bulk_loop_unchanged [OF l len this] 1 show ?thesis by simp
  next
    case False
    with Cons.prems(3) have r: "item \<in> set rest" by simp
    with Cons.prems(2) have ne: "id_b item \<noteq> id_b item0" by (auto simp: image_iff)
    with Cons.prems(5) have "id_b (items ! n) \<noteq> id_b item0" by simp
    with s Cons.prems(4) have 1: "items2 ! n = items ! n" by (rule process_item_other)
    from Cons.prems(2) have d: "distinct (map id_b rest)" by simp
    from Cons.IH [OF l d r len _ Cons.prems(6)] 1 Cons.prems(5) show ?thesis by simp
  qed
qed


lemma idle_todo:
  assumes "distinct (map id_b items)"
  shows "distinct (map id_b (filter (\<lambda>item. status_b item = St_idle) items))"
  using assms by (rule distinct_map_filter)

lemma not_idle_not_todo:
  assumes "distinct (map id_b items)" and "i \<in> set items" and "status_b i \<noteq> St_idle"
  shows "id_b i \<notin> id_b ` set (filter (\<lambda>item. status_b item = St_idle) items)"
proof
  assume "id_b i \<in> id_b ` set (filter (\<lambda>item. status_b item = St_idle) items)"
  then obtain j where j: "j \<in> set items" "status_b j = St_idle" "id_b j = id_b i" by auto
  from assms(1) have "inj_on id_b (set items)" by (simp add: distinct_map)
  with j assms(2) have "j = i" by (auto dest: inj_onD)
  with j assms(3) show False by simp
qed

lemma state_bulk_items: "bulkItems state_bulk = [bulk_1, bulk_2, bulk_3]"
  by (simp add: state_bulk_def handleBulkFilesSelected_def state_ex_def bulk_1_def bulk_2_def
      bulk_3_def file_1_def file_2_def file_3_def extractPriceFromFilename_def text_eval)

lemma state_bulk_autoCrop: "autoCrop state_bulk = True"
  by (simp add: state_bulk_def handleBulkFilesSelected_def state_ex_def)

lemma pipeline_ex_1: "processImagePipeline world_ex ''data:image/jpeg;base64,AAAA'' True = Inr result_ex"
  by (simp add: pipeline_eval world_ex_def ident_ex_def result_ex_def text_eval)

lemma pipeline_ex_3: "processImagePipeline world_ex ''data:image/png;base64,BBBB'' True = Inr result_ex"
  by (simp add: pipeline_eval world_ex_def ident_ex_def result_ex_def text_eval)

lemma pipeline_ex_2:
  "processImagePipeline world_ex ''BAD'' True = Inl (Error ''Failed to identify book from image.'')"
  by (simp add: pipeline_eval world_ex_def text_eval)

lemma outcome_1: "item_outcome (\<lambda>u. world_ex) True bulk_1 = Some (Inr result_ex)"
  using pipeline_ex_1 by (simp add: item_outcome_def bulk_1_def file_1_def world_ex_def)

lemma outcome_2:
  "item_outcome (\<lambda>u. world_ex) True bulk_2 = Some (Inl (Error ''Failed to identify book from image.''))"
  using pipeline_ex_2 by (simp add: item_outcome_def bulk_2_def file_2_def world_ex_def)

lemma outcome_3: "item_outcome (\<lambda>u. world_ex) True bulk_3 = Some (Inr result_ex)"
  using pipeline_ex_3 by (simp add: item_outcome_def bulk_3_def file_3_def world_ex_def)

lemma bulk_ex_distinct: "distinct (map id_b [bulk_1, bulk_2, bulk_3])"
  by (simp add: bulk_1_def bulk_2_def bulk_3_def)

lemma bulk_ex_different: "bulk_1 \<noteq> bulk_2" "bulk_3 \<noteq> bulk_2"
  by (simp_all add: bulk_1_def bulk_2_def bulk_3_def)

text \<open>
  C1. Take a bulk list with distinct identifiers and no item in processing, and a run
  in which the \<open>try\<close> block throws for the idle item \<open>k\<close> and succeeds for every other
  idle item. Then the run completes and clears the flag; item \<open>k\<close> has status error and
  the error note, and is otherwise as it was; every other idle item is completed; the
  items that were not idle are as they were; and no item is left in processing.
\<close>

theorem bulk_failure_isolation:
  assumes "distinct (map id_b (bulkItems st))"
    and "list_all (\<lambda>i. status_b i \<noteq> St_processing) (bulkItems st)"
    and "k \<in> set (bulkItems st)" and "status_b k = St_idle"
    and "item_outcome W (autoCrop st) k = Some (Inl e)"
    and "\<forall>i\<in>set (bulkItems st). status_b i = St_idle \<and> i \<noteq> k \<longrightarrow>
           (\<exists>r. item_outcome W (autoCrop st) i = Some (Inr r))"
  shows "\<exists>st'. startBulkProcessing W st = Some st' \<and>
           isBulkProcessing st' = False \<and>
           length (bulkItems st') = length (bulkItems st) \<and>
           (\<forall>n<length (bulkItems st).
              (bulkItems st ! n = k \<longrightarrow>
                 bulkItems st' ! n = k\<lparr>status_b := St_error, error_b := Some ''Failed''\<rparr>) \<and>
              (bulkItems st ! n \<noteq> k \<and> status_b (bulkItems st ! n) = St_idle \<longrightarrow>
                 status_b (bulkItems st' ! n) = St_completed \<and>
                 id_b (bulkItems st' ! n) = id_b (bulkItems st ! n)) \<and>
              (status_b (bulkItems st ! n) \<noteq> St_idle \<longrightarrow> bulkItems st' ! n = bulkItems st ! n)) \<and>
           (\<forall>j\<in>set (bulkItems st'). status_b j \<noteq> St_processing)"
proof -
  let ?items = "bulkItems st"
  let ?todo = "filter (\<lambda>item. status_b item = St_idle) ?items"
  let ?ac = "autoCrop st"
  have out: "\<forall>item\<in>set ?todo. item_outcome W ?ac item \<noteq> None"
    using assms(5,6) by auto
  from bulk_loop_terminates [OF out] obtain items' where
    l: "bulk_loop W ?ac ?todo ?items = Some items'" by blast
  have len: "length items' = length ?items" using l by (rule bulk_loop_length)
  have d: "distinct (map id_b ?todo)" using assms(1) by (rule idle_todo)
  have fail: "items' ! n = k\<lparr>status_b := St_error, error_b := Some ''Failed''\<rparr>"
    if "n < length ?items" "?items ! n = k" for n
  proof -
    from assms(3,4) have "k \<in> set ?todo" by simp
    from bulk_loop_error [OF l d this that(1) _ assms(5)] that(2) show ?thesis by simp
  qed
  have compl: "status_b (items' ! n) = St_completed \<and> id_b (items' ! n) = id_b (?items ! n)"
    if "n < length ?items" "?items ! n \<noteq> k" "status_b (?items ! n) = St_idle" for n
  proof -
    from that have m: "?items ! n \<in> set ?todo" by simp
    from that assms(6) obtain r where r: "item_outcome W ?ac (?items ! n) = Some (Inr r)"
      by (metis nth_mem)
    from bulk_loop_completed [OF l d m that(1) refl r] show ?thesis by simp
  qed
  have keep: "items' ! n = ?items ! n"
    if "n < length ?items" "status_b (?items ! n) \<noteq> St_idle" for n
  proof -
    from that have "id_b (?items ! n) \<notin> id_b ` set ?todo"
      using not_idle_not_todo [OF assms(1)] by simp
    with l that(1) show ?thesis by (rule bulk_loop_unchanged)
  qed
  have nop: "\<forall>j\<in>set items'. status_b j \<noteq> St_processing"
  proof
    fix j assume "j \<in> set items'"
    then obtain n where n: "n < length items'" "j = items' ! n"
      by (auto simp: in_set_conv_nth)
    with len have n': "n < length ?items" by simp
    then have p: "status_b (?items ! n) \<noteq> St_processing"
      using assms(2) by (simp add: list_all_length)
    show "status_b j \<noteq> St_processing"
    proof (cases "status_b (?items ! n) = St_idle")
      case True
      show ?thesis
      proof (cases "?items ! n = k")
        case True
        with fail [OF n'] n show ?thesis by simp
      next
        case False
        with compl [OF n' False True] n show ?thesis by simp
      qed
    next
      case False
      with keep [OF n'] n p show ?thesis by simp
    qed
  qed
  have s: "startBulkProcessing W st = Some (st\<lparr>bulkItems := items', isBulkProcessing := False\<rparr>)"
    using l by (simp add: startBulkProcessing_def)
  show ?thesis
    using s len fail compl keep nop by auto
qed

theorem bulk_failure_isolation_witness:
  "distinct (map id_b (bulkItems state_bulk)) \<and>
   list_all (\<lambda>i. status_b i \<noteq> St_processing) (bulkItems state_bulk) \<and>
   bulk_2 \<in> set (bulkItems state_bulk) \<and> status_b bulk_2 = St_idle \<and>
   item_outcome (\<lambda>u. world_ex) (autoCrop state_bulk) bulk_2
     = Some (Inl (Error ''Failed to identify book from image.'')) \<and>
   (\<exists>st'. startBulkProcessing (\<lambda>u. world_ex) state_bulk = Some st' \<and>
      status_b (bulkItems st' ! 0) = St_completed \<and>
      bulkItems st' ! 1 = bulk_2\<lparr>status_b := St_error, error_b := Some ''Failed''\<rparr> \<and>
      status_b (bulkItems st' ! 2) = St_completed)"
proof -
  have a: "distinct (map id_b (bulkItems state_bulk))"
    using bulk_ex_distinct by (simp add: state_bulk_items)
  have b: "list_all (\<lambda>i. status_b i \<noteq> St_processing) (bulkItems state_bulk)"
    by (simp add: state_bulk_items bulk_1_def bulk_2_def bulk_3_def)
  have c: "bulk_2 \<in> set (bulkItems state_bulk)" by (simp add: state_bulk_items)
  have d: "status_b bulk_2 = St_idle" by (simp add: bulk_2_def)
  have e: "item_outcome (\<lambda>u. world_ex) (autoCrop state_bulk) bulk_2
     = Some (Inl (Error ''Failed to identify book from image.''))"
    using outcome_2 by (simp add: state_bulk_autoCrop)
  have f: "\<forall>i\<in>set (bulkItems state_bulk). status_b i = St_idle \<and> i \<noteq> bulk_2 \<longrightarrow>
           (\<exists>r. item_outcome (\<lambda>u. world_ex) (autoCrop state_bulk) i = Some (Inr r))"
    using outcome_1 outcome_3 by (simp add: state_bulk_items state_bulk_autoCrop)
  from bulk_failure_isolation [OF a b c d e f] obtain st' where
    s: "startBulkProcessing (\<lambda>u. world_ex) state_bulk = Some st'"
    and n: "\<forall>n<length (bulkItems state_bulk).
              (bulkItems state_bulk ! n = bulk_2 \<longrightarrow>
                 bulkItems st' ! n = bulk_2\<lparr>status_b := St_error, error_b := Some ''Failed''\<rparr>) \<and>
              (bulkItems state_bulk ! n \<noteq> bulk_2 \<and> status_b (bulkItems state_bulk ! n) = St_idle \<longrightarrow>
                 status_b (bulkItems st' ! n) = St_completed \<and>
                 id_b (bulkItems st' ! n) = id_b (bulkItems state_bulk ! n)) \<and>
              (status_b (bulkItems state_bulk ! n) \<noteq> St_idle \<longrightarrow>
                 bulkItems st' ! n = bulkItems state_bulk ! n)"
    by blast
  have i1: "status_b bulk_1 = St_idle" and i3: "status_b bulk_3 = St_idle"
    by (simp_all add: bulk_1_def bulk_3_def)
  from n [rule_format, of 0] bulk_ex_different i1
  have 0: "status_b (bulkItems st' ! 0) = St_completed" by (simp add: state_bulk_items)
  from n [rule_format, of 1]
  have 1: "bulkItems st' ! 1 = bulk_2\<lparr>status_b := St_error, error_b := Some ''Failed''\<rparr>"
    by (simp add: state_bulk_items)
  from n [rule_format, of 2] bulk_ex_different i3
  have 2: "status_b (bulkItems st' ! 2) = St_completed" by (simp add: state_bulk_items)
  from a b c d e s 0 1 2 show ?thesis by blast
qed

text \<open>
  C3. When the pipeline succeeds for an item, the transition to completed gives every
  item of the list with its identifier the title, author, synopsis and category of the
  pipeline's result and leaves the price the item has at that moment. For a run that
  completes on a list with distinct identifiers, the item is in the end completed with
  the price it had when the run started; for an item made by
  \<open>handleBulkFilesSelected\<close> that is the price extracted from its file name.
\<close>

theorem bulk_price_preserved:
  assumes "item_outcome W ac i = Some (Inr r)"
  shows "(\<exists>items2. process_item W ac i items = Some items2 \<and>
            length items2 = length items \<and>
            (\<forall>n<length items.
               items2 ! n =
                 (if id_b (items ! n) = id_b i
                  then (items ! n)\<lparr>status_b := St_completed,
                         data_b := \<lparr>title = title_p r, author = author_p r, synopsis = synopsis_p r,
                                    price = price (data_b (items ! n)), category = category_p r\<rparr>,
                         processedImage := Some (processedImage_p r)\<rparr>
                  else items ! n))) \<and>
         (\<forall>st st'. ac = autoCrop st \<and> distinct (map id_b (bulkItems st)) \<and>
             i \<in> set (bulkItems st) \<and> status_b i = St_idle \<and>
             startBulkProcessing W st = Some st' \<longrightarrow>
             length (bulkItems st') = length (bulkItems st) \<and>
             (\<forall>n<length (bulkItems st). bulkItems st ! n = i \<longrightarrow>
                bulkItems st' ! n =
                  i\<lparr>status_b := St_completed,
                    data_b := \<lparr>title = title_p r, author = author_p r, synopsis = synopsis_p r,
                               price = price (data_b i), category = category_p r\<rparr>,
                    processedImage := Some (processedImage_p r)\<rparr>))"
proof -
  have run: "length (bulkItems st') = length (bulkItems st) \<and>
             (\<forall>n<length (bulkItems st). bulkItems st ! n = i \<longrightarrow>
                bulkItems st' ! n =
                  i\<lparr>status_b := St_completed,
                    data_b := \<lparr>title = title_p r, author = author_p r, synopsis = synopsis_p r,
                               price = price (data_b i), category = category_p r\<rparr>,
                    processedImage := Some (processedImage_p r)\<rparr>)"
    if h: "ac = autoCrop st" "distinct (map id_b (bulkItems st))" "i \<in> set (bulkItems st)"
      "status_b i = St_idle" "startBulkProcessing W st = Some st'" for st st'
  proof -
    let ?todo = "filter (\<lambda>item. status_b item = St_idle) (bulkItems st)"
    from h(5) have l: "bulk_loop W ac ?todo (bulkItems st) = Some (bulkItems st')"
      by (auto simp: startBulkProcessing_def h(1) split: option.splits)
    have d: "distinct (map id_b ?todo)" using h(2) by (rule idle_todo)
    from h(3,4) have m: "i \<in> set ?todo" by simp
    have len: "length (bulkItems st') = length (bulkItems st)" using l by (rule bulk_loop_length)
    have "bulkItems st' ! n = i\<lparr>status_b := St_completed,
                    data_b := \<lparr>title = title_p r, author = author_p r, synopsis = synopsis_p r,
                               price = price (data_b i), category = category_p r\<rparr>,
                    processedImage := Some (processedImage_p r)\<rparr>"
      if "n < length (bulkItems st)" "bulkItems st ! n = i" for n
      using bulk_loop_completed [OF l d m that(1) _ assms] that(2) by simp
    with len show ?thesis by blast
  qed
  from process_item_completed [OF assms, of items] run show ?thesis by blast
qed

theorem bulk_price_preserved_witness:
  "item_outcome (\<lambda>u. world_ex) True bulk_1 = Some (Inr result_ex) \<and>
   price (data_b bulk_1) = extractPriceFromFilename (name_f (file_b bulk_1)) \<and>
   (\<exists>st'. startBulkProcessing (\<lambda>u. world_ex) state_bulk = Some st' \<and>
      data_b (bulkItems st' ! 0) =
        \<lparr>title = ''The Lord Of The Rings'', author = ''J Tolkien'',
         synopsis = ''A tale of a ring.'', price = ''380'',
         category = ''Fiction, Classics and Poetry''\<rparr>)"
proof -
  have p: "price (data_b bulk_1) = extractPriceFromFilename (name_f (file_b bulk_1))"
    by (simp add: bulk_1_def file_1_def extractPriceFromFilename_def text_eval)
  have t: "\<forall>item\<in>set (filter (\<lambda>item. status_b item = St_idle) (bulkItems state_bulk)).
             item_outcome (\<lambda>u. world_ex) (autoCrop state_bulk) item \<noteq> None"
    using outcome_1 outcome_2 outcome_3 by (simp add: state_bulk_items state_bulk_autoCrop)
  from bulk_loop_terminates [OF t, of "bulkItems state_bulk"] obtain st' where
    s: "startBulkProcessing (\<lambda>u. world_ex) state_bulk = Some st'"
    by (auto simp: startBulkProcessing_def)
  have h: "True = autoCrop state_bulk \<and> distinct (map id_b (bulkItems state_bulk)) \<and>
             bulk_1 \<in> set (bulkItems state_bulk) \<and> status_b bulk_1 = St_idle \<and>
             startBulkProcessing (\<lambda>u. world_ex) state_bulk = Some st'"
    using bulk_ex_distinct s by (simp add: state_bulk_items state_bulk_autoCrop bulk_1_def)
  from bulk_price_preserved [OF outcome_1, of "[]"] h
  have "\<forall>n<length (bulkItems state_bulk). bulkItems state_bulk ! n = bulk_1 \<longrightarrow>
                bulkItems st' ! n =
                  bulk_1\<lparr>status_b := St_completed,
                    data_b := \<lparr>title = title_p result_ex, author = author_p result_ex,
                               synopsis = synopsis_p result_ex,
                               price = price (data_b bulk_1), category = category_p result_ex\<rparr>,
                    processedImage := Some (processedImage_p result_ex)\<rparr>"
    by blast
  from this [rule_format, of 0]
  have "data_b (bulkItems st' ! 0) =
        \<lparr>title = ''The Lord Of The Rings'', author = ''J Tolkien'',
         synopsis = ''A tale of a ring.'', price = ''380'',
         category = ''Fiction, Classics and Poetry''\<rparr>"
    by (simp add: state_bulk_items result_ex_def bulk_1_def)
  with outcome_1 p s show ?thesis by blast
qed

end
